theory Spec2Isabelle
  imports Main "HOL-Library.Word"
begin

section \<open>JavaScript strings\<close>

text \<open>
  A JavaScript string is a sequence of 16-bit code units; \<open>length\<close>, \<open>includes\<close>,
  \<open>split\<close>, \<open>substring\<close> and the regular expressions of the component (no \<open>u\<close> flag)
  all work on code units. The bullet glyph U+2022 is a single code unit.
\<close>

type_synonym jschar = "16 word"
type_synonym jsstring = "jschar list"

text \<open>ASCII literals of the source, written as Isabelle strings.\<close>

definition js :: "string \<Rightarrow> jsstring" where
  "js s = map of_char s"

definition char_nl :: jschar where "char_nl = 0x0A"
definition char_at :: jschar where "char_at = 0x40"
definition char_bar :: jschar where "char_bar = 0x7C"
definition char_colon :: jschar where "char_colon = 0x3A"
definition char_amp :: jschar where "char_amp = 0x26"
definition char_bullet :: jschar where "char_bullet = 0x2022"

text \<open>
  The white space of \<open>String.prototype.trim\<close> (WhiteSpace and LineTerminator of
  ECMAScript), which is also the class \<open>\s\<close> of a regular expression.
\<close>

definition is_ws :: "jschar \<Rightarrow> bool" where
  "is_ws c = (c = 0x09 \<or> c = 0x0A \<or> c = 0x0B \<or> c = 0x0C \<or> c = 0x0D \<or> c = 0x20
     \<or> c = 0xA0 \<or> c = 0x1680 \<or> (0x2000 \<le> c \<and> c \<le> 0x200A)
     \<or> c = 0x2028 \<or> c = 0x2029 \<or> c = 0x202F \<or> c = 0x205F \<or> c = 0x3000 \<or> c = 0xFEFF)"

text \<open>The class \<open>[A-Z]\<close>.\<close>

definition is_upper :: "jschar \<Rightarrow> bool" where
  "is_upper c = (0x41 \<le> c \<and> c \<le> 0x5A)"

text \<open>\<open>s.trim()\<close>\<close>

definition trim :: "jsstring \<Rightarrow> jsstring" where
  "trim s = rev (dropWhile is_ws (rev (dropWhile is_ws s)))"

text \<open>\<open>t.startsWith(s)\<close> and \<open>t.includes(s)\<close>\<close>

fun startsWith :: "'a list \<Rightarrow> 'a list \<Rightarrow> bool" where
  "startsWith t [] = True"
| "startsWith [] (c # s) = False"
| "startsWith (x # t) (c # s) = (x = c \<and> startsWith t s)"

fun includes_js :: "'a list \<Rightarrow> 'a list \<Rightarrow> bool" where
  "includes_js [] s = (s = [])"
| "includes_js (x # t) s = (startsWith (x # t) s \<or> includes_js t s)"

text \<open>
  \<open>t.split(sep)\<close> for a separator of one code unit: the pieces between the
  separators, empty pieces included; the empty string splits into one empty piece.
\<close>

fun split_on :: "'a \<Rightarrow> 'a list \<Rightarrow> 'a list list" where
  "split_on sep [] = [[]]"
| "split_on sep (c # cs) =
     (if c = sep then [] # split_on sep cs
      else (case split_on sep cs of [] \<Rightarrow> [[c]] | p # ps \<Rightarrow> (c # p) # ps))"

text \<open>\<open>parts.join(sep)\<close> for a separator of one code unit.\<close>

fun join_on :: "'a \<Rightarrow> 'a list list \<Rightarrow> 'a list" where
  "join_on sep [] = []"
| "join_on sep [p] = p"
| "join_on sep (p # q # ps) = p @ sep # join_on sep (q # ps)"

text \<open>
  Whether \<open>t.match(re)\<close> finds a match, for \<open>/^[A-Z\s]+$/\<close> and
  \<open>/^[A-Z\s&]+$/\<close>: a non-empty text of characters of the class only.
\<close>

definition match_name :: "jsstring \<Rightarrow> bool" where
  "match_name t = (t \<noteq> [] \<and> list_all (\<lambda>c. is_upper c \<or> is_ws c) t)"

definition match_header :: "jsstring \<Rightarrow> bool" where
  "match_header t = (t \<noteq> [] \<and> list_all (\<lambda>c. is_upper c \<or> is_ws c \<or> c = char_amp) t)"

section \<open>The classifier: \<open>formatContent\<close> of \<open>DocumentPreview.jsx\<close>\<close>

text \<open>
  A prop such as \<open>content\<close> holds a string, \<open>null\<close> or \<open>undefined\<close>
  (\<open>workflowData.generatedResume\<close> starts as \<open>null\<close>).
\<close>

datatype jsval = Undefined | Null | Str jsstring

definition falsy :: "jsval \<Rightarrow> bool" where
  "falsy v = (case v of Undefined \<Rightarrow> True | Null \<Rightarrow> True | Str s \<Rightarrow> s = [])"

text \<open>
  Each line becomes one element. The \<open>role\<close> names the branch of \<open>formatContent\<close>
  that built it (each branch has its own styling), \<open>key\<close> is the React key (the line
  index) and \<open>displayText\<close> lists the string expressions the branch interpolates into
  the element, in order: none for a blank line, the key and the value for a skill line.
  The glyph of a bullet and the colon after a skill key are static markup of the element.
\<close>

datatype role = Blank | Person_name | Contact_info | Section_header | Job_header
  | Bullet | Skill_entry | Paragraph

record block =
  key :: nat
  role :: role
  displayText :: "jsstring list"

definition sections :: "jsstring list" where
  "sections = map js [''PROFESSIONAL SUMMARY'', ''WORK EXPERIENCE'', ''EDUCATION'', ''SKILLS'',
     ''PROJECTS'', ''CERTIFICATIONS'', ''EXTRACURRICULAR ACTIVITIES'', ''AWARDS & ACHIEVEMENTS'',
     ''VOLUNTEER'', ''LANGUAGES'', ''INTERESTS'']"

text \<open>The conditions of the seven \<open>if\<close> statements, on the trimmed line.\<close>

definition is_blank :: "jsstring \<Rightarrow> bool" where
  "is_blank t = (t = [])"

definition is_name :: "nat \<Rightarrow> jsstring \<Rightarrow> bool" where
  "is_name index t = (index = 0 \<and> match_name t \<and> length t > 3)"

definition is_contact :: "nat \<Rightarrow> jsstring \<Rightarrow> bool" where
  "is_contact index t = (includes_js t [char_at] \<or> includes_js t (js ''linkedin.com'')
     \<or> (includes_js t [char_bar] \<and> index < 5))"

definition is_section :: "jsstring \<Rightarrow> bool" where
  "is_section t = (match_header t \<and> length t > 3 \<and> list_ex (\<lambda>section. includes_js t section) sections)"

definition is_job :: "jsstring \<Rightarrow> bool" where
  "is_job t = (includes_js t [char_bar] \<and> length (split_on char_bar t) \<ge> 2)"

definition is_bullet :: "jsstring \<Rightarrow> bool" where
  "is_bullet t = startsWith t [char_bullet]"

definition is_skill :: "jsstring \<Rightarrow> bool" where
  "is_skill t = (includes_js t [char_colon] \<and> \<not> includes_js t [char_at])"

text \<open>\<open>parts[0]\<close>; \<open>undefined\<close>, for no part at all, renders as no text.\<close>

definition first_part :: "jsstring list \<Rightarrow> jsstring" where
  "first_part parts = (case parts of [] \<Rightarrow> [] | p # _ \<Rightarrow> p)"

text \<open>
  The callback of \<open>map\<close>: one line and its index. \<open>substring(1)\<close> of a string and
  \<open>slice(1)\<close> of an array drop the first element, as \<open>tl\<close> does.
\<close>

definition classify_line :: "nat \<Rightarrow> jsstring \<Rightarrow> block" where
  "classify_line index line =
     (let trimmedLine = trim line in
      if is_blank trimmedLine then
        \<lparr>key = index, role = Blank, displayText = []\<rparr>
      else if is_name index trimmedLine then
        \<lparr>key = index, role = Person_name, displayText = [trimmedLine]\<rparr>
      else if is_contact index trimmedLine then
        \<lparr>key = index, role = Contact_info, displayText = [trimmedLine]\<rparr>
      else if is_section trimmedLine then
        \<lparr>key = index, role = Section_header, displayText = [trimmedLine]\<rparr>
      else if is_job trimmedLine then
        \<lparr>key = index, role = Job_header, displayText = [trimmedLine]\<rparr>
      else if is_bullet trimmedLine then
        \<lparr>key = index, role = Bullet, displayText = [trim (tl trimmedLine)]\<rparr>
      else if is_skill trimmedLine then
        \<lparr>key = index, role = Skill_entry,
         displayText = [first_part (split_on char_colon trimmedLine),
                        trim (join_on char_colon (tl (split_on char_colon trimmedLine)))]\<rparr>
      else
        \<lparr>key = index, role = Paragraph, displayText = [trimmedLine]\<rparr>)"

text \<open>
  \<open>formatContent\<close>: the guard returns the empty string, which React renders as no
  element at all, so the sequence of blocks is empty there; otherwise the lines of
  \<open>text.split('\n')\<close> are mapped with their indices. Calling \<open>split\<close> on \<open>null\<close>
  or \<open>undefined\<close> would raise a \<open>TypeError\<close>.
\<close>

datatype js_error = TypeError

definition formatContent :: "jsval \<Rightarrow> js_error + block list" where
  "formatContent text =
     (if falsy text then Inr []
      else (case text of
              Str s \<Rightarrow> Inr (map (\<lambda>(index, line). classify_line index line)
                              (enumerate 0 (split_on char_nl s)))
            | _ \<Rightarrow> Inl TypeError))"

section \<open>The preview and edit controller: \<open>DocumentPreview\<close> inside \<open>Export\<close>\<close>

text \<open>
  \<open>Export\<close> renders \<open>DocumentPreview\<close> unconditionally and passes it
  \<open>isOpen = showResumePreview\<close>, \<open>content = workflowData.generatedResume\<close>,
  \<open>onClose = () => setShowResumePreview(false)\<close> and \<open>onSave = handleSaveResume\<close>.
  The component returns \<open>null\<close> while \<open>isOpen\<close> is false but stays mounted, so its
  two \<open>useState\<close> cells keep their values; \<open>useState(content)\<close> reads \<open>content\<close>
  only when the component is mounted. The state below holds the two props that
  change, the two cells of the component, the notification modal of \<open>Export\<close> and,
  as a log, the arguments \<open>onSave\<close> has been called with. The cover letter preview
  is the same component with \<open>handleSaveCoverLetter\<close>, which differs in the
  notification text only. The state describes one mount of \<open>Export\<close>: leaving the
  page unmounts the component and discards its cells.
\<close>

record state =
  content :: jsval
  isOpen :: bool
  isEditing :: bool
  editedContent :: jsval
  showModal :: bool
  modalContent :: "string \<times> string \<times> string"
  onSaveCalls :: "jsval list"

definition mount :: "jsval \<Rightarrow> state" where
  "mount c = \<lparr>content = c, isOpen = False, isEditing = False, editedContent = c,
     showModal = False, modalContent = ([], [], []), onSaveCalls = []\<rparr>"

definition showNotification :: "string \<Rightarrow> string \<Rightarrow> string \<Rightarrow> state \<Rightarrow> state" where
  "showNotification type title message st =
     st\<lparr>modalContent := (type, title, message), showModal := True\<rparr>"

text \<open>\<open>handleSaveResume\<close> of \<open>Export\<close>: the argument is not used.\<close>

definition handleSaveResume :: "jsval \<Rightarrow> state \<Rightarrow> state" where
  "handleSaveResume updatedContent st =
     showNotification ''success'' ''Resume Updated''
       ''Your resume has been updated successfully.'' st"

definition onSave :: "jsval \<Rightarrow> state \<Rightarrow> state" where
  "onSave v st = handleSaveResume v (st\<lparr>onSaveCalls := onSaveCalls st @ [v]\<rparr>)"

definition handleSave :: "state \<Rightarrow> state" where
  "handleSave st = (onSave (editedContent st) st)\<lparr>isEditing := False\<rparr>"

definition handleCancel :: "state \<Rightarrow> state" where
  "handleCancel st = st\<lparr>editedContent := content st, isEditing := False\<rparr>"

definition onClose :: "state \<Rightarrow> state" where
  "onClose st = st\<lparr>isOpen := False\<rparr>"

text \<open>
  \<open>updateWorkflowData('generatedResume', v)\<close> of the workflow context. The context
  lives above the routes, and \<open>handleGenerate\<close> of \<open>AIGeneration\<close> calls it when its
  request completes, which can be while \<open>Export\<close> is mounted; the preview is then
  rendered again with the new \<open>content\<close>, its two cells unchanged.
\<close>

definition updateWorkflowData :: "jsval \<Rightarrow> state \<Rightarrow> state" where
  "updateWorkflowData v st = st\<lparr>content := v\<rparr>"

text \<open>
  The user's actions: the Preview button of \<open>Export\<close>, the Edit button, typing into
  the text area, the Cancel and Save buttons, the close button (or the backdrop).
  The last event is the owner of the document replacing \<open>content\<close>.
\<close>

datatype event = Open | BeginEdit | EditDraft jsstring | CancelEdit | SaveEdit | Close
  | ContentUpdated jsval

text \<open>
  A control exists only while it is rendered: nothing of the component while
  \<open>isOpen\<close> is false, the Edit button while not editing, the text area and the Cancel
  and Save buttons while editing.
\<close>

fun enabled :: "event \<Rightarrow> state \<Rightarrow> bool" where
  "enabled Open st = True"
| "enabled BeginEdit st = (isOpen st \<and> \<not> isEditing st)"
| "enabled (EditDraft v) st = (isOpen st \<and> isEditing st)"
| "enabled CancelEdit st = (isOpen st \<and> isEditing st)"
| "enabled SaveEdit st = (isOpen st \<and> isEditing st)"
| "enabled Close st = isOpen st"
| "enabled (ContentUpdated v) st = True"

fun handler :: "event \<Rightarrow> state \<Rightarrow> state" where
  "handler Open st = st\<lparr>isOpen := True\<rparr>"
| "handler BeginEdit st = st\<lparr>isEditing := True\<rparr>"
| "handler (EditDraft v) st = st\<lparr>editedContent := Str v\<rparr>"
| "handler CancelEdit st = handleCancel st"
| "handler SaveEdit st = handleSave st"
| "handler Close st = onClose st"
| "handler (ContentUpdated v) st = updateWorkflowData v st"

text \<open>An action on a control that is not rendered cannot happen: the state stays.\<close>

definition step :: "event \<Rightarrow> state \<Rightarrow> state" where
  "step e st = (if enabled e st then handler e st else st)"

fun run :: "event list \<Rightarrow> state \<Rightarrow> state" where
  "run [] st = st"
| "run (e # es) st = run es (step e st)"

text \<open>The three states of the specification, read off the two flags.\<close>

datatype mode = Closed | Viewing | Editing

definition mode :: "state \<Rightarrow> mode" where
  "mode st = (if \<not> isOpen st then Closed else if isEditing st then Editing else Viewing)"

text \<open>
  What the component renders: nothing while closed; otherwise the text area with the
  draft or the formatted \<open>content\<close>, and the footer's \<open>content?.length || 0\<close>.
\<close>

datatype body = Textarea jsval | Formatted "block list"

record view =
  body :: body
  charCount :: nat

definition content_length :: "jsval \<Rightarrow> nat" where
  "content_length v = (case v of Str s \<Rightarrow> length s | _ \<Rightarrow> 0)"

definition render :: "state \<Rightarrow> js_error + view option" where
  "render st =
     (if \<not> isOpen st then Inr None
      else if isEditing st then
        Inr (Some \<lparr>body = Textarea (editedContent st),
                   charCount = content_length (content st)\<rparr>)
      else (case formatContent (content st) of
              Inl e \<Rightarrow> Inl e
            | Inr blocks \<Rightarrow>
                Inr (Some \<lparr>body = Formatted blocks,
                           charCount = content_length (content st)\<rparr>)))"

text \<open>The text on screen: the draft in the text area, \<open>content\<close> otherwise.\<close>

definition shownText :: "state \<Rightarrow> jsval" where
  "shownText st = (if isEditing st then editedContent st else content st)"

section \<open>Properties named by the specification\<close>

text \<open>A text without white space at either end (the empty text included).\<close>

definition no_outer_ws :: "jsstring \<Rightarrow> bool" where
  "no_outer_ws s = (s = [] \<or> (\<not> is_ws (hd s) \<and> \<not> is_ws (last s)))"

definition no_leading_ws :: "jsstring \<Rightarrow> bool" where
  "no_leading_ws s = (s = [] \<or> \<not> is_ws (hd s))"

text \<open>
  The job header rule in the words of the specification: the line contains a bar and
  splitting on the bar gives at least two non-empty parts.
\<close>

definition spec_job_rule :: "jsstring \<Rightarrow> bool" where
  "spec_job_rule t = (includes_js t [char_bar]
     \<and> length (filter (\<lambda>p. p \<noteq> []) (split_on char_bar t)) \<ge> 2)"

text \<open>
  The draft is in step with the content whenever the component is not editing: the
  property that makes an edit session start from the current content.
\<close>

definition synced :: "state \<Rightarrow> bool" where
  "synced st = (isEditing st \<or> editedContent st = content st)"

section \<open>Facts about the string operations\<close>

lemma startsWith_single: "startsWith t [c] = (t \<noteq> [] \<and> hd t = c)"
  by (cases t) auto

lemma includes_js_single: "includes_js t [c] = (c \<in> set t)"
  by (induction t) (auto simp: startsWith_single)

lemma startsWith_set: "startsWith t s \<Longrightarrow> set s \<subseteq> set t"
  by (induction t s rule: startsWith.induct) auto

lemma includes_js_set: "includes_js t s \<Longrightarrow> set s \<subseteq> set t"
proof (induction t)
  case Nil
  then show ?case by simp
next
  case (Cons x t)
  from Cons.prems have "startsWith (x # t) s \<or> includes_js t s" by simp
  then show ?case
  proof
    assume "startsWith (x # t) s"
    then show ?thesis by (rule startsWith_set)
  next
    assume "includes_js t s"
    then have "set s \<subseteq> set t" by (rule Cons.IH)
    then show ?thesis by auto
  qed
qed

lemma split_on_not_Nil: "split_on sep t \<noteq> []"
  by (induction t) (auto split: list.splits)

lemma length_split_on: "length (split_on sep t) = Suc (count_list t sep)"
  by (induction t) (auto split: list.splits simp: split_on_not_Nil)

lemma join_split_on: "join_on sep (split_on sep t) = t"
proof (induction t)
  case Nil
  show ?case by simp
next
  case (Cons c cs)
  obtain p ps where ps: "split_on sep cs = p # ps"
    using split_on_not_Nil [of sep cs] by (cases "split_on sep cs") auto
  show ?case
  proof (cases "c = sep")
    case True
    with Cons ps show ?thesis by simp
  next
    case False
    with Cons ps show ?thesis by (cases ps) auto
  qed
qed

lemma split_on_no_sep: "p \<in> set (split_on sep t) \<Longrightarrow> sep \<notin> set p"
proof (induction t arbitrary: p)
  case Nil
  then show ?case by simp
next
  case (Cons c cs)
  obtain q qs where qs: "split_on sep cs = q # qs"
    using split_on_not_Nil [of sep cs] by (cases "split_on sep cs") auto
  show ?case
  proof (cases "c = sep")
    case True
    with Cons qs show ?thesis by auto
  next
    case False
    with Cons.prems qs have "p = c # q \<or> p \<in> set qs" by auto
    with Cons.IH qs False show ?thesis by auto
  qed
qed

lemma first_part_split_on: "first_part (split_on sep t) = takeWhile (\<lambda>c. c \<noteq> sep) t"
  by (induction t) (auto simp: first_part_def split: list.splits)

lemma dropWhile_keeps: "x \<in> set xs \<Longrightarrow> \<not> P x \<Longrightarrow> x \<in> set (dropWhile P xs)"
  by (induction xs) auto

lemma trim_keeps: "c \<in> set s \<Longrightarrow> \<not> is_ws c \<Longrightarrow> c \<in> set (trim s)"
  unfolding trim_def by (simp add: dropWhile_keeps)

lemma set_trim: "set (trim s) \<subseteq> set s"
proof
  fix x assume "x \<in> set (trim s)"
  then have "x \<in> set (dropWhile is_ws (rev (dropWhile is_ws s)))" by (simp add: trim_def)
  then have "x \<in> set (rev (dropWhile is_ws s))" by (rule set_dropWhileD)
  then have "x \<in> set (dropWhile is_ws s)" by simp
  then show "x \<in> set s" by (rule set_dropWhileD)
qed

lemma trim_Nil_iff: "trim s = [] \<longleftrightarrow> list_all is_ws s"
  unfolding trim_def by (auto simp: list_all_iff dest: set_dropWhileD dropWhile_keeps)

lemma trim_no_outer_ws: "no_outer_ws (trim s)"
proof (cases "trim s = []")
  case True
  then show ?thesis by (simp add: no_outer_ws_def)
next
  case False
  define u where "u = dropWhile is_ws s"
  define v where "v = dropWhile is_ws (rev u)"
  have t: "trim s = rev v" by (simp add: trim_def u_def v_def)
  with False have v: "v \<noteq> []" by simp
  then have "\<not> is_ws (hd v)" unfolding v_def by (rule hd_dropWhile)
  then have l: "\<not> is_ws (last (trim s))" using v t by (simp add: last_rev)
  from v obtain x where x: "x \<in> set (rev u)" "\<not> is_ws x"
    unfolding v_def by (auto simp: dropWhile_eq_Nil_conv)
  then have "last v = last (rev u)" unfolding v_def by (rule dropWhile_last)
  moreover from x have u: "u \<noteq> []" by auto
  ultimately have "last v = hd u" by (simp add: last_rev)
  moreover from u have "\<not> is_ws (hd u)" unfolding u_def by (rule hd_dropWhile)
  ultimately have "\<not> is_ws (hd (trim s))" using v t by (simp add: hd_rev)
  with l show ?thesis by (simp add: no_outer_ws_def)
qed

lemma trim_pad:
  assumes a: "list_all is_ws a" and b: "list_all is_ws b"
  shows "trim (a @ s @ b) = trim s"
proof -
  from a have 1: "dropWhile is_ws (a @ s @ b) = dropWhile is_ws (s @ b)"
    by (simp add: list_all_iff)
  show ?thesis
  proof (cases "list_all is_ws s")
    case True
    with a b have "list_all is_ws (a @ s @ b)" by simp
    then have "trim (a @ s @ b) = []" by (simp only: trim_Nil_iff)
    moreover from True have "trim s = []" by (simp only: trim_Nil_iff)
    ultimately show ?thesis by simp
  next
    case False
    then obtain x where "x \<in> set s" "\<not> is_ws x" by (auto simp: list_all_iff)
    then have "dropWhile is_ws (s @ b) = dropWhile is_ws s @ b" by simp
    moreover from b have "\<And>x. x \<in> set (rev b) \<Longrightarrow> is_ws x"
      by (simp add: list_all_iff)
    then have "dropWhile is_ws (rev b @ rev (dropWhile is_ws s)) = dropWhile is_ws (rev (dropWhile is_ws s))"
      by (rule dropWhile_append2)
    ultimately show ?thesis using 1 by (simp add: trim_def)
  qed
qed

lemma no_outer_ws_trim: "no_outer_ws s \<Longrightarrow> trim s = s"
proof (cases "s = []")
  case True
  then show ?thesis by (simp add: trim_def)
next
  case False
  assume "no_outer_ws s"
  with False have h: "\<not> is_ws (hd s)" and l: "\<not> is_ws (last s)"
    by (simp_all add: no_outer_ws_def)
  from h have 1: "dropWhile is_ws s = s" by (simp add: dropWhile_eq_self_iff)
  from l False have "dropWhile is_ws (rev s) = rev s"
    by (simp add: dropWhile_eq_self_iff hd_rev)
  with 1 show ?thesis by (simp add: trim_def)
qed

lemma trim_idem: "trim (trim s) = trim s"
  by (rule no_outer_ws_trim) (rule trim_no_outer_ws)

lemma delimiter_facts:
  "\<not> is_ws char_at" "\<not> is_ws char_bar" "\<not> is_ws char_colon"
  "\<not> is_ws char_bullet" "\<not> is_ws char_amp"
  "\<not> is_upper char_at" "\<not> is_upper char_bar" "\<not> is_upper char_colon"
  "\<not> is_upper char_bullet" "\<not> is_upper char_amp"
  "char_at \<noteq> char_amp" "char_bar \<noteq> char_amp" "char_colon \<noteq> char_amp"
  "char_bullet \<noteq> char_amp"
  by (simp_all add: is_ws_def is_upper_def char_at_def char_bar_def char_colon_def char_bullet_def char_amp_def)

section \<open>Facts about the classifier\<close>

lemma role_classify_line:
  "role (classify_line index line) =
     (if is_blank (trim line) then Blank
      else if is_name index (trim line) then Person_name
      else if is_contact index (trim line) then Contact_info
      else if is_section (trim line) then Section_header
      else if is_job (trim line) then Job_header
      else if is_bullet (trim line) then Bullet
      else if is_skill (trim line) then Skill_entry
      else Paragraph)"
  by (simp add: classify_line_def Let_def)

lemma key_classify_line: "key (classify_line index line) = index"
  by (simp add: classify_line_def Let_def)

lemma at_is_contact:
  assumes "char_at \<in> set line"
  shows "role (classify_line index line) = Contact_info"
proof -
  from assms have m: "char_at \<in> set (trim line)"
    by (rule trim_keeps) (rule delimiter_facts)
  then have "\<not> is_blank (trim line)" by (auto simp: is_blank_def)
  moreover from m have "\<not> match_name (trim line)"
    using delimiter_facts by (auto simp: match_name_def list_all_iff)
  then have "\<not> is_name index (trim line)" by (simp add: is_name_def)
  moreover from m have "is_contact index (trim line)"
    by (simp add: is_contact_def includes_js_single)
  ultimately show ?thesis by (simp add: role_classify_line)
qed

lemma is_job_iff: "is_job t \<longleftrightarrow> char_bar \<in> set t"
proof -
  have "char_bar \<in> set t \<Longrightarrow> 0 < count_list t char_bar"
    using count_list_0_iff [of t char_bar] by auto
  then show ?thesis
    by (auto simp: is_job_def includes_js_single length_split_on)
qed

lemma header_chars_not_contact:
  assumes "match_header t" and "index \<noteq> 0 \<or> \<not> match_name t"
  shows "\<not> is_blank t" and "\<not> is_name index t" and "\<not> is_contact index t"
proof -
  from assms(1) have ne: "t \<noteq> []"
    and cs: "\<And>c. c \<in> set t \<Longrightarrow> is_upper c \<or> is_ws c \<or> c = char_amp"
    by (auto simp: match_header_def list_all_iff)
  from ne show "\<not> is_blank t" by (simp add: is_blank_def)
  from assms(2) show "\<not> is_name index t" by (auto simp: is_name_def)
  have at: "char_at \<notin> set t" using cs delimiter_facts by blast
  have bar: "char_bar \<notin> set t" using cs delimiter_facts by blast
  have l: "(0x6C :: jschar) \<in> set (js ''linkedin.com'')" by (simp add: js_def)
  have "\<not> (is_upper (0x6C :: jschar) \<or> is_ws 0x6C \<or> 0x6C = char_amp)"
    by (simp add: is_upper_def is_ws_def char_amp_def)
  with cs have "(0x6C :: jschar) \<notin> set t" by blast
  with l have "\<not> includes_js t (js ''linkedin.com'')"
    using includes_js_set [of t "js ''linkedin.com''"] by blast
  with at bar show "\<not> is_contact index t"
    by (simp add: is_contact_def includes_js_single)
qed

section \<open>The claims about the classifier\<close>

text \<open>
  C8: the rules are tried in the order blank, person name, contact info, section
  header, job header, bullet, skill entry, paragraph, and the first rule whose
  condition holds decides the role: a line gets a role exactly when that rule's
  condition holds and the conditions of all earlier rules fail. In particular a line
  among the first five that contains both a bar and an at sign is contact info (so
  neither job header nor skill entry), as is \<open>John Doe | john@example.com\<close> at index 0.
\<close>

theorem rules_first_match_wins:
  "(role (classify_line index line) = Blank \<longleftrightarrow> is_blank (trim line))
 \<and> (role (classify_line index line) = Person_name \<longleftrightarrow>
       \<not> is_blank (trim line) \<and> is_name index (trim line))
 \<and> (role (classify_line index line) = Contact_info \<longleftrightarrow>
       \<not> is_blank (trim line) \<and> \<not> is_name index (trim line) \<and> is_contact index (trim line))
 \<and> (role (classify_line index line) = Section_header \<longleftrightarrow>
       \<not> is_blank (trim line) \<and> \<not> is_name index (trim line) \<and> \<not> is_contact index (trim line)
       \<and> is_section (trim line))
 \<and> (role (classify_line index line) = Job_header \<longleftrightarrow>
       \<not> is_blank (trim line) \<and> \<not> is_name index (trim line) \<and> \<not> is_contact index (trim line)
       \<and> \<not> is_section (trim line) \<and> is_job (trim line))
 \<and> (role (classify_line index line) = Bullet \<longleftrightarrow>
       \<not> is_blank (trim line) \<and> \<not> is_name index (trim line) \<and> \<not> is_contact index (trim line)
       \<and> \<not> is_section (trim line) \<and> \<not> is_job (trim line) \<and> is_bullet (trim line))
 \<and> (role (classify_line index line) = Skill_entry \<longleftrightarrow>
       \<not> is_blank (trim line) \<and> \<not> is_name index (trim line) \<and> \<not> is_contact index (trim line)
       \<and> \<not> is_section (trim line) \<and> \<not> is_job (trim line) \<and> \<not> is_bullet (trim line)
       \<and> is_skill (trim line))
 \<and> (role (classify_line index line) = Paragraph \<longleftrightarrow>
       \<not> is_blank (trim line) \<and> \<not> is_name index (trim line) \<and> \<not> is_contact index (trim line)
       \<and> \<not> is_section (trim line) \<and> \<not> is_job (trim line) \<and> \<not> is_bullet (trim line)
       \<and> \<not> is_skill (trim line))
 \<and> (index < 5 \<and> char_bar \<in> set line \<and> char_at \<in> set line \<longrightarrow>
       role (classify_line index line) = Contact_info)
 \<and> role (classify_line 0 (js ''John Doe | john@example.com'')) = Contact_info"
proof -
  let ?r = "role (classify_line index line)"
  have r1: "?r = Blank \<longleftrightarrow> is_blank (trim line)"
    by (simp add: role_classify_line)
  have r2: "?r = Person_name \<longleftrightarrow> \<not> is_blank (trim line) \<and> is_name index (trim line)"
    by (simp add: role_classify_line)
  have r3: "?r = Contact_info \<longleftrightarrow>
       \<not> is_blank (trim line) \<and> \<not> is_name index (trim line) \<and> is_contact index (trim line)"
    by (simp add: role_classify_line)
  have r4: "?r = Section_header \<longleftrightarrow>
       \<not> is_blank (trim line) \<and> \<not> is_name index (trim line) \<and> \<not> is_contact index (trim line)
       \<and> is_section (trim line)"
    by (simp add: role_classify_line)
  have r5: "?r = Job_header \<longleftrightarrow>
       \<not> is_blank (trim line) \<and> \<not> is_name index (trim line) \<and> \<not> is_contact index (trim line)
       \<and> \<not> is_section (trim line) \<and> is_job (trim line)"
    by (simp add: role_classify_line)
  have r6: "?r = Bullet \<longleftrightarrow>
       \<not> is_blank (trim line) \<and> \<not> is_name index (trim line) \<and> \<not> is_contact index (trim line)
       \<and> \<not> is_section (trim line) \<and> \<not> is_job (trim line) \<and> is_bullet (trim line)"
    by (simp add: role_classify_line)
  have r7: "?r = Skill_entry \<longleftrightarrow>
       \<not> is_blank (trim line) \<and> \<not> is_name index (trim line) \<and> \<not> is_contact index (trim line)
       \<and> \<not> is_section (trim line) \<and> \<not> is_job (trim line) \<and> \<not> is_bullet (trim line)
       \<and> is_skill (trim line)"
    by (simp add: role_classify_line)
  have r8: "?r = Paragraph \<longleftrightarrow>
       \<not> is_blank (trim line) \<and> \<not> is_name index (trim line) \<and> \<not> is_contact index (trim line)
       \<and> \<not> is_section (trim line) \<and> \<not> is_job (trim line) \<and> \<not> is_bullet (trim line)
       \<and> \<not> is_skill (trim line)"
    by (simp add: role_classify_line)
  have c: "index < 5 \<and> char_bar \<in> set line \<and> char_at \<in> set line \<longrightarrow> ?r = Contact_info"
    using at_is_contact [of line index] by simp
  have ex: "role (classify_line 0 (js ''John Doe | john@example.com'')) = Contact_info"
    by code_simp
  show ?thesis
    by (intro conjI) (fact r1, fact r2, fact r3, fact r4, fact r5, fact r6, fact r7, fact r8,
      fact c, fact ex)
qed

theorem rules_first_match_wins_witness:
  "(3::nat) < 5 \<and> char_bar \<in> set (js ''a@b.c | x'') \<and> char_at \<in> set (js ''a@b.c | x'')
   \<and> role (classify_line 3 (js ''a@b.c | x'')) = Contact_info"
proof -
  have h: "(3::nat) < 5 \<and> char_bar \<in> set (js ''a@b.c | x'') \<and> char_at \<in> set (js ''a@b.c | x'')"
    by (simp add: js_def char_bar_def char_at_def)
  from rules_first_match_wins [of 3 "js ''a@b.c | x''"]
  have "(3::nat) < 5 \<and> char_bar \<in> set (js ''a@b.c | x'') \<and> char_at \<in> set (js ''a@b.c | x'')
     \<longrightarrow> role (classify_line 3 (js ''a@b.c | x'')) = Contact_info"
    by (elim conjE)
  with h show ?thesis by simp
qed

lemma header_line_role:
  assumes "index \<noteq> 0" and "match_header (trim line)"
  shows "role (classify_line index line) = Section_header \<longleftrightarrow> is_section (trim line)"
proof -
  from assms have i: "index \<noteq> 0 \<or> \<not> match_name (trim line)" by simp
  from assms(2) i have "\<not> is_blank (trim line)" by (rule header_chars_not_contact)
  moreover from assms(2) i have "\<not> is_name index (trim line)"
    by (rule header_chars_not_contact)
  moreover from assms(2) i have "\<not> is_contact index (trim line)"
    by (rule header_chars_not_contact)
  ultimately show ?thesis by (simp add: role_classify_line)
qed

text \<open>
  C1, amended: for a line that is not at index 0 and whose trimmed text consists of
  capital letters, white space and \<open>&\<close> only and is longer than 3, the role is section
  header exactly when the trimmed text contains one of the vocabulary titles as a
  substring. So \<open>SKILLS\<close> is a section header, and so is \<open>SKILLSET BUILDING\<close>, which
  contains the title \<open>SKILLS\<close>; the counterexample shows that it is not a paragraph.
\<close>

theorem section_header_vocabulary:
  "(index \<noteq> 0 \<and> match_header (trim line) \<and> 3 < length (trim line) \<longrightarrow>
      (role (classify_line index line) = Section_header \<longleftrightarrow>
       list_ex (\<lambda>section. includes_js (trim line) section) sections))
   \<and> (index \<noteq> 0 \<longrightarrow> role (classify_line index (js ''SKILLS'')) = Section_header)
   \<and> (index \<noteq> 0 \<longrightarrow> role (classify_line index (js ''SKILLSET BUILDING'')) = Section_header)"
proof -
  have g: "index \<noteq> 0 \<and> match_header (trim line) \<and> 3 < length (trim line) \<longrightarrow>
      (role (classify_line index line) = Section_header \<longleftrightarrow>
       list_ex (\<lambda>section. includes_js (trim line) section) sections)"
    by (simp add: header_line_role is_section_def)
  have 1: "match_header (trim (js ''SKILLS''))" "is_section (trim (js ''SKILLS''))"
    by code_simp+
  have 2: "match_header (trim (js ''SKILLSET BUILDING''))"
    "is_section (trim (js ''SKILLSET BUILDING''))"
    by code_simp+
  from 1 have a: "index \<noteq> 0 \<longrightarrow> role (classify_line index (js ''SKILLS'')) = Section_header"
    by (simp add: header_line_role)
  from 2 have b: "index \<noteq> 0 \<longrightarrow> role (classify_line index (js ''SKILLSET BUILDING'')) = Section_header"
    by (simp add: header_line_role)
  show ?thesis by (intro conjI) (fact g, fact a, fact b)
qed

theorem section_header_vocabulary_witness:
  "(2::nat) \<noteq> 0 \<and> match_header (trim (js ''  WORK EXPERIENCE & AWARDS''))
   \<and> 3 < length (trim (js ''  WORK EXPERIENCE & AWARDS''))
   \<and> list_ex (\<lambda>section. includes_js (trim (js ''  WORK EXPERIENCE & AWARDS'')) section) sections
   \<and> role (classify_line 2 (js ''  WORK EXPERIENCE & AWARDS'')) = Section_header
   \<and> role (classify_line 2 (js ''SKILLS'')) = Section_header
   \<and> role (classify_line 2 (js ''SKILLSET BUILDING'')) = Section_header
   \<and> match_header (trim (js ''HELLO WORLD'')) \<and> 3 < length (trim (js ''HELLO WORLD''))
   \<and> \<not> list_ex (\<lambda>section. includes_js (trim (js ''HELLO WORLD'')) section) sections
   \<and> role (classify_line 2 (js ''HELLO WORLD'')) \<noteq> Section_header"
proof -
  have h: "(2::nat) \<noteq> 0 \<and> match_header (trim (js ''  WORK EXPERIENCE & AWARDS''))
   \<and> 3 < length (trim (js ''  WORK EXPERIENCE & AWARDS''))"
    by code_simp
  have v: "list_ex (\<lambda>section. includes_js (trim (js ''  WORK EXPERIENCE & AWARDS'')) section) sections"
    by code_simp
  have h': "match_header (trim (js ''HELLO WORLD'')) \<and> 3 < length (trim (js ''HELLO WORLD''))"
    by code_simp
  have v': "\<not> list_ex (\<lambda>section. includes_js (trim (js ''HELLO WORLD'')) section) sections"
    by code_simp
  from h v h' v' section_header_vocabulary [of 2 "js ''  WORK EXPERIENCE & AWARDS''"]
    section_header_vocabulary [of 2 "js ''HELLO WORLD''"]
  show ?thesis by simp
qed

theorem skillset_building_counterexample:
  "match_header (trim (js ''SKILLSET BUILDING'')) \<and> 3 < length (trim (js ''SKILLSET BUILDING''))
   \<and> role (classify_line 1 (js ''SKILLSET BUILDING'')) = Section_header
   \<and> role (classify_line 1 (js ''SKILLSET BUILDING'')) \<noteq> Paragraph"
  by code_simp

text \<open>
  C6, amended: a line that reaches the job header rule (not blank, not the person
  name, not contact info, not a section header) is a job header exactly when its
  trimmed text contains a bar; \<open>split\<close> then gives at least two parts, which may be
  empty. Without a bar the later rules decide. The counterexample is a line with one
  non-empty part only, which the code still makes a job header.
\<close>

theorem job_header_rule:
  "\<not> is_blank (trim line) \<and> \<not> is_name index (trim line) \<and> \<not> is_contact index (trim line)
   \<and> \<not> is_section (trim line) \<longrightarrow>
     (role (classify_line index line) = Job_header \<longleftrightarrow> includes_js (trim line) [char_bar])
     \<and> (includes_js (trim line) [char_bar] \<longrightarrow> 2 \<le> length (split_on char_bar (trim line)))
     \<and> (\<not> includes_js (trim line) [char_bar] \<longrightarrow>
          role (classify_line index line) =
            (if is_bullet (trim line) then Bullet
             else if is_skill (trim line) then Skill_entry else Paragraph))"
proof -
  have j: "is_job (trim line) \<longleftrightarrow> includes_js (trim line) [char_bar]"
    by (simp add: is_job_iff includes_js_single)
  have l: "includes_js (trim line) [char_bar] \<longrightarrow> 2 \<le> length (split_on char_bar (trim line))"
    using j by (auto simp: is_job_def)
  show ?thesis using l by (simp add: role_classify_line j)
qed

theorem job_header_rule_witness:
  "\<not> is_blank (trim (js ''Engineer | Acme'')) \<and> \<not> is_name 7 (trim (js ''Engineer | Acme''))
   \<and> \<not> is_contact 7 (trim (js ''Engineer | Acme'')) \<and> \<not> is_section (trim (js ''Engineer | Acme''))
   \<and> includes_js (trim (js ''Engineer | Acme'')) [char_bar]
   \<and> role (classify_line 7 (js ''Engineer | Acme'')) = Job_header
   \<and> 2 \<le> length (split_on char_bar (trim (js ''Engineer | Acme'')))
   \<and> \<not> is_blank (trim (js ''Python: 3 years'')) \<and> \<not> is_name 7 (trim (js ''Python: 3 years''))
   \<and> \<not> is_contact 7 (trim (js ''Python: 3 years'')) \<and> \<not> is_section (trim (js ''Python: 3 years''))
   \<and> \<not> includes_js (trim (js ''Python: 3 years'')) [char_bar]
   \<and> role (classify_line 7 (js ''Python: 3 years'')) = Skill_entry"
proof -
  have h: "\<not> is_blank (trim (js ''Engineer | Acme'')) \<and> \<not> is_name 7 (trim (js ''Engineer | Acme''))
   \<and> \<not> is_contact 7 (trim (js ''Engineer | Acme'')) \<and> \<not> is_section (trim (js ''Engineer | Acme''))"
    by code_simp
  have b: "includes_js (trim (js ''Engineer | Acme'')) [char_bar]"
    by code_simp
  have h': "\<not> is_blank (trim (js ''Python: 3 years'')) \<and> \<not> is_name 7 (trim (js ''Python: 3 years''))
   \<and> \<not> is_contact 7 (trim (js ''Python: 3 years'')) \<and> \<not> is_section (trim (js ''Python: 3 years''))"
    by code_simp
  have b': "\<not> includes_js (trim (js ''Python: 3 years'')) [char_bar]"
    "\<not> is_bullet (trim (js ''Python: 3 years''))" "is_skill (trim (js ''Python: 3 years''))"
    by code_simp+
  from h b h' b' job_header_rule [of "js ''Engineer | Acme''" 7]
    job_header_rule [of "js ''Python: 3 years''" 7]
  show ?thesis by simp
qed

theorem job_header_counterexample:
  "\<not> is_blank (trim (js ''Engineer |'')) \<and> \<not> is_name 7 (trim (js ''Engineer |''))
   \<and> \<not> is_contact 7 (trim (js ''Engineer |'')) \<and> \<not> is_section (trim (js ''Engineer |''))
   \<and> role (classify_line 7 (js ''Engineer |'')) = Job_header
   \<and> \<not> spec_job_rule (trim (js ''Engineer |''))"
  by code_simp

lemma displayText_classify_line:
  "displayText (classify_line index line) =
     (case role (classify_line index line) of
        Blank \<Rightarrow> []
      | Bullet \<Rightarrow> [trim (tl (trim line))]
      | Skill_entry \<Rightarrow> [first_part (split_on char_colon (trim line)),
                        trim (join_on char_colon (tl (split_on char_colon (trim line))))]
      | _ \<Rightarrow> [trim line])"
  by (simp add: classify_line_def Let_def)

lemma join_rest_split_on:
  "join_on sep (tl (split_on sep t)) = tl (dropWhile (\<lambda>c. c \<noteq> sep) t)"
proof (induction t)
  case Nil
  show ?case by simp
next
  case (Cons c cs)
  obtain p ps where ps: "split_on sep cs = p # ps"
    using split_on_not_Nil [of sep cs] by (cases "split_on sep cs") auto
  show ?case
  proof (cases "c = sep")
    case True
    then show ?thesis by (simp add: join_split_on)
  next
    case False
    with Cons ps show ?thesis by simp
  qed
qed

lemma no_outer_ws_leading: "no_outer_ws s \<Longrightarrow> no_leading_ws s"
  by (auto simp: no_outer_ws_def no_leading_ws_def)

lemma key_part_ws:
  assumes "no_outer_ws t"
  shows "no_leading_ws (takeWhile (\<lambda>c. c \<noteq> char_colon) t)"
    and "no_outer_ws (takeWhile (\<lambda>c. c \<noteq> char_colon) t @ [char_colon])"
proof -
  let ?k = "takeWhile (\<lambda>c. c \<noteq> char_colon) t"
  have h: "?k \<noteq> [] \<Longrightarrow> \<not> is_ws (hd ?k)"
  proof -
    assume k: "?k \<noteq> []"
    then obtain x xs where t: "t = x # xs" by (cases t) auto
    with k have "x \<noteq> char_colon" by (auto split: if_splits)
    with t have "hd ?k = hd t" by simp
    moreover from assms t have "\<not> is_ws (hd t)" by (simp add: no_outer_ws_def)
    ultimately show ?thesis by simp
  qed
  then show "no_leading_ws ?k" by (auto simp: no_leading_ws_def)
  from h show "no_outer_ws (?k @ [char_colon])"
    using delimiter_facts(3) by (cases "?k = []") (simp_all add: no_outer_ws_def)
qed

text \<open>
  C9, amended: the block of a line depends on the trimmed line and the index only, so
  white space added in front of or behind a line never changes its block. No text of
  a block starts with white space, and outside skill entries none ends with white
  space either; the text of a bullet is trimmed again after the glyph. A skill entry
  holds the text before the first colon, as it stands, and the trimmed text after it:
  the value has no white space at either end, but the key is not trimmed again and
  ends with white space when the line has white space before its first colon (only
  together with the colon rendered after it does it end without white space). The
  counterexample is the line \<open>A : b\<close>, whose key is \<open>A\<close> followed by a space.
\<close>

theorem classify_line_trimmed:
  "(list_all is_ws a \<and> list_all is_ws b \<longrightarrow>
      classify_line index (a @ line @ b) = classify_line index line)
   \<and> list_all no_leading_ws (displayText (classify_line index line))
   \<and> (role (classify_line index line) \<noteq> Skill_entry \<longrightarrow>
        list_all no_outer_ws (displayText (classify_line index line)))
   \<and> (role (classify_line index line) = Bullet \<longrightarrow>
        displayText (classify_line index line) = [trim (tl (trim line))])
   \<and> (role (classify_line index line) = Skill_entry \<longrightarrow>
        displayText (classify_line index line) =
          [takeWhile (\<lambda>c. c \<noteq> char_colon) (trim line),
           trim (tl (dropWhile (\<lambda>c. c \<noteq> char_colon) (trim line)))]
        \<and> no_outer_ws (takeWhile (\<lambda>c. c \<noteq> char_colon) (trim line) @ [char_colon])
        \<and> no_outer_ws (trim (tl (dropWhile (\<lambda>c. c \<noteq> char_colon) (trim line)))))"
proof -
  let ?b = "classify_line index line"
  have t: "no_outer_ws (trim line)" by (rule trim_no_outer_ws)
  have pad: "list_all is_ws a \<and> list_all is_ws b \<longrightarrow>
      classify_line index (a @ line @ b) = ?b"
    by (simp add: classify_line_def trim_pad)
  have d: "displayText ?b =
     (case role ?b of
        Blank \<Rightarrow> []
      | Bullet \<Rightarrow> [trim (tl (trim line))]
      | Skill_entry \<Rightarrow> [takeWhile (\<lambda>c. c \<noteq> char_colon) (trim line),
                        trim (tl (dropWhile (\<lambda>c. c \<noteq> char_colon) (trim line)))]
      | _ \<Rightarrow> [trim line])"
    by (cases "role ?b")
      (simp_all add: displayText_classify_line first_part_split_on join_rest_split_on)
  have lead: "list_all no_leading_ws (displayText ?b)"
    unfolding d using t key_part_ws(1) [OF t]
    by (cases "role ?b") (simp_all add: no_outer_ws_leading trim_no_outer_ws)
  have outer: "role ?b \<noteq> Skill_entry \<longrightarrow> list_all no_outer_ws (displayText ?b)"
    unfolding d using t by (cases "role ?b") (simp_all add: trim_no_outer_ws)
  have bul: "role ?b = Bullet \<longrightarrow> displayText ?b = [trim (tl (trim line))]"
    by (simp add: d)
  have skill: "role ?b = Skill_entry \<longrightarrow>
        displayText ?b =
          [takeWhile (\<lambda>c. c \<noteq> char_colon) (trim line),
           trim (tl (dropWhile (\<lambda>c. c \<noteq> char_colon) (trim line)))]
        \<and> no_outer_ws (takeWhile (\<lambda>c. c \<noteq> char_colon) (trim line) @ [char_colon])
        \<and> no_outer_ws (trim (tl (dropWhile (\<lambda>c. c \<noteq> char_colon) (trim line))))"
    using key_part_ws(2) [OF t] by (simp add: d trim_no_outer_ws)
  show ?thesis by (intro conjI) (fact pad, fact lead, fact outer, fact bul, fact skill)
qed

theorem classify_line_trimmed_witness:
  "list_all is_ws (js ''  '') \<and> list_all is_ws [0x09, 0x0D]
   \<and> classify_line 1 (js ''  '' @ js ''A : b'' @ [0x09, 0x0D]) = classify_line 1 (js ''A : b'')
   \<and> role (classify_line 1 (js ''A : b'')) = Skill_entry
   \<and> displayText (classify_line 1 (js ''A : b'')) = [js ''A '', js ''b'']
   \<and> no_outer_ws (js ''A :'') \<and> no_outer_ws (js ''b'')
   \<and> role (classify_line 2 (js ''Plain text'')) \<noteq> Skill_entry
   \<and> list_all no_outer_ws (displayText (classify_line 2 (js ''Plain text'')))
   \<and> role (classify_line 3 (char_bullet # js ''  Led a team '')) = Bullet
   \<and> displayText (classify_line 3 (char_bullet # js ''  Led a team '')) = [js ''Led a team'']"
proof -
  have h: "list_all is_ws (js ''  '') \<and> list_all is_ws [0x09, 0x0D]" by code_simp
  have r: "role (classify_line 1 (js ''A : b'')) = Skill_entry" by code_simp
  have e: "takeWhile (\<lambda>c. c \<noteq> char_colon) (trim (js ''A : b'')) = js ''A ''"
    "trim (tl (dropWhile (\<lambda>c. c \<noteq> char_colon) (trim (js ''A : b'')))) = js ''b''"
    "js ''A '' @ [char_colon] = js ''A :''"
    by code_simp+
  have p: "role (classify_line 2 (js ''Plain text'')) \<noteq> Skill_entry" by code_simp
  have u: "role (classify_line 3 (char_bullet # js ''  Led a team '')) = Bullet" by code_simp
  have u': "trim (tl (trim (char_bullet # js ''  Led a team ''))) = js ''Led a team''"
    by code_simp
  from h r p u classify_line_trimmed [of "js ''  ''" "[0x09, 0x0D]" 1 "js ''A : b''"]
    classify_line_trimmed [of "[]" "[]" 2 "js ''Plain text''"]
    classify_line_trimmed [of "[]" "[]" 3 "char_bullet # js ''  Led a team ''"]
  show ?thesis by (simp add: e u')
qed

theorem skill_key_counterexample:
  "role (classify_line 1 (js ''A : b'')) = Skill_entry
   \<and> displayText (classify_line 1 (js ''A : b'')) = [js ''A '', js ''b'']
   \<and> is_ws (last (js ''A ''))
   \<and> \<not> list_all no_outer_ws (displayText (classify_line 1 (js ''A : b'')))"
  by code_simp

lemma formatContent_Str:
  "formatContent (Str s) =
     Inr (if s = [] then []
          else map (\<lambda>(index, line). classify_line index line) (enumerate 0 (split_on char_nl s)))"
  by (simp add: formatContent_def falsy_def)

lemma formatContent_absent: "formatContent Null = Inr []" "formatContent Undefined = Inr []"
  by (simp_all add: formatContent_def falsy_def)

lemma formatContent_returns: "\<exists>blocks. formatContent v = Inr blocks"
  by (cases v) (simp_all add: formatContent_Str formatContent_absent)

text \<open>
  C7: \<open>formatContent\<close> returns for every string, never raising. The empty string
  gives no block. A non-empty string gives exactly one block per line of
  \<open>split('\n')\<close>, in the order of the lines: block \<open>i\<close> is the classification of line
  \<open>i\<close> at index \<open>i\<close> and carries \<open>i\<close> as its key. The lines are the
  newline-delimited segments of the input: joined with newlines they give the input
  back, none contains a newline, and there is one more of them than newlines.
\<close>

theorem formatContent_one_block_per_line:
  "formatContent (Str []) = Inr []
   \<and> (s \<noteq> [] \<longrightarrow>
        (\<exists>blocks. formatContent (Str s) = Inr blocks
           \<and> length blocks = length (split_on char_nl s)
           \<and> (\<forall>i < length blocks.
                 blocks ! i = classify_line i (split_on char_nl s ! i) \<and> key (blocks ! i) = i)))
   \<and> (\<exists>blocks. formatContent (Str s) = Inr blocks)
   \<and> join_on char_nl (split_on char_nl s) = s
   \<and> (\<forall>line \<in> set (split_on char_nl s). char_nl \<notin> set line)
   \<and> length (split_on char_nl s) = Suc (count_list s char_nl)"
proof -
  have e: "formatContent (Str []) = Inr []" by (simp add: formatContent_Str)
  have n: "s \<noteq> [] \<longrightarrow>
        (\<exists>blocks. formatContent (Str s) = Inr blocks
           \<and> length blocks = length (split_on char_nl s)
           \<and> (\<forall>i < length blocks.
                 blocks ! i = classify_line i (split_on char_nl s ! i) \<and> key (blocks ! i) = i))"
    by (simp add: formatContent_Str nth_enumerate_eq key_classify_line)
  have r: "\<exists>blocks. formatContent (Str s) = Inr blocks" by (rule formatContent_returns)
  have j: "join_on char_nl (split_on char_nl s) = s" by (rule join_split_on)
  have l: "\<forall>line \<in> set (split_on char_nl s). char_nl \<notin> set line"
    by (auto dest: split_on_no_sep)
  have c: "length (split_on char_nl s) = Suc (count_list s char_nl)" by (rule length_split_on)
  show ?thesis by (intro conjI) (fact e, fact n, fact r, fact j, fact l, fact c)
qed

theorem formatContent_one_block_per_line_witness:
  "js ''JOHN DOE'' @ [char_nl] @ js ''j@d.io'' @ [char_nl] \<noteq> []
   \<and> split_on char_nl (js ''JOHN DOE'' @ [char_nl] @ js ''j@d.io'' @ [char_nl])
       = [js ''JOHN DOE'', js ''j@d.io'', []]
   \<and> (\<exists>blocks. formatContent (Str (js ''JOHN DOE'' @ [char_nl] @ js ''j@d.io'' @ [char_nl]))
         = Inr blocks \<and> length blocks = 3
         \<and> blocks ! 0 = classify_line 0 (js ''JOHN DOE'')
         \<and> blocks ! 1 = classify_line 1 (js ''j@d.io'')
         \<and> blocks ! 2 = classify_line 2 [])"
proof -
  let ?s = "js ''JOHN DOE'' @ [char_nl] @ js ''j@d.io'' @ [char_nl]"
  have h: "?s \<noteq> []" by simp
  have sp: "split_on char_nl ?s = [js ''JOHN DOE'', js ''j@d.io'', []]" by code_simp
  from formatContent_one_block_per_line [of ?s] h
  obtain blocks where b: "formatContent (Str ?s) = Inr blocks"
    "length blocks = length (split_on char_nl ?s)"
    "\<forall>i < length blocks. blocks ! i = classify_line i (split_on char_nl ?s ! i) \<and> key (blocks ! i) = i"
    by blast
  from b(2) sp have len: "length blocks = 3" by simp
  with b(3) sp have "blocks ! 0 = classify_line 0 (js ''JOHN DOE'')"
    "blocks ! 1 = classify_line 1 (js ''j@d.io'')" "blocks ! 2 = classify_line 2 []"
    by auto
  with h sp b(1) len show ?thesis by simp
qed

text \<open>
  C10: for \<open>null\<close> and \<open>undefined\<close> the guard of \<open>formatContent\<close> returns the
  empty output, so that \<open>formatContent\<close> raises for no value at all, and the character
  count of the footer is 0: an open preview of absent content renders no block (or
  the text area, while editing) and the count 0.
\<close>

theorem absent_content_is_safe:
  "formatContent Null = Inr [] \<and> formatContent Undefined = Inr []
   \<and> (\<exists>blocks. formatContent v = Inr blocks)
   \<and> content_length Null = 0 \<and> content_length Undefined = 0
   \<and> (isOpen st \<and> (content st = Null \<or> content st = Undefined) \<longrightarrow>
        render st = Inr (Some \<lparr>body = (if isEditing st then Textarea (editedContent st)
                                        else Formatted []),
                                charCount = 0\<rparr>))"
proof -
  have r: "isOpen st \<and> (content st = Null \<or> content st = Undefined) \<longrightarrow>
        render st = Inr (Some \<lparr>body = (if isEditing st then Textarea (editedContent st)
                                        else Formatted []),
                                charCount = 0\<rparr>)"
    by (auto simp: render_def formatContent_absent content_length_def)
  have v: "\<exists>blocks. formatContent v = Inr blocks" by (rule formatContent_returns)
  show ?thesis using r v by (simp add: formatContent_absent content_length_def)
qed

theorem absent_content_is_safe_witness:
  "isOpen (step Open (mount Null)) \<and> content (step Open (mount Null)) = Null
   \<and> render (step Open (mount Null)) = Inr (Some \<lparr>body = Formatted [], charCount = 0\<rparr>)"
proof -
  have h: "isOpen (step Open (mount Null)) \<and> content (step Open (mount Null)) = Null"
    "\<not> isEditing (step Open (mount Null))"
    by (simp_all add: step_def mount_def)
  with absent_content_is_safe [of Null "step Open (mount Null)"] show ?thesis by simp
qed

section \<open>Facts about the controller\<close>

text \<open>No action of the user changes \<open>content\<close>: the component has no setter for it,
  and \<open>handleSaveResume\<close> does not store its argument.\<close>

lemma content_step: "\<forall>v. e \<noteq> ContentUpdated v \<Longrightarrow> content (step e st) = content st"
  by (cases e)
    (simp_all add: step_def handleCancel_def handleSave_def onSave_def handleSaveResume_def
      showNotification_def onClose_def)

lemma content_run:
  "\<forall>e \<in> set es. \<forall>v. e \<noteq> ContentUpdated v \<Longrightarrow> content (run es st) = content st"
proof (induction es arbitrary: st)
  case Nil
  show ?case by simp
next
  case (Cons e es)
  from Cons.prems have "\<forall>v. e \<noteq> ContentUpdated v" by simp
  then have "content (step e st) = content st" by (rule content_step)
  moreover from Cons.prems have "\<forall>e \<in> set es. \<forall>v. e \<noteq> ContentUpdated v" by simp
  then have "content (run es (step e st)) = content (step e st)" by (rule Cons.IH)
  ultimately show ?case by simp
qed

text \<open>Only typing and the Cancel button write the draft.\<close>

lemma editedContent_step:
  "e \<noteq> CancelEdit \<Longrightarrow> \<forall>v. e \<noteq> EditDraft v \<Longrightarrow>
   editedContent (step e st) = editedContent st"
  by (cases e)
    (simp_all add: step_def handleSave_def onSave_def handleSaveResume_def
      showNotification_def onClose_def updateWorkflowData_def)

lemma synced_step:
  "synced st \<Longrightarrow> e \<noteq> SaveEdit \<Longrightarrow> \<forall>v. e \<noteq> ContentUpdated v \<Longrightarrow> synced (step e st)"
  by (cases e) (auto simp: synced_def step_def handleCancel_def onClose_def)

lemma synced_run:
  "synced st \<Longrightarrow> \<forall>e \<in> set es. e \<noteq> SaveEdit \<and> (\<forall>v. e \<noteq> ContentUpdated v) \<Longrightarrow>
   synced (run es st)"
proof (induction es arbitrary: st)
  case Nil
  then show ?case by simp
next
  case (Cons e es)
  from Cons.prems(2) have "e \<noteq> SaveEdit" and "\<forall>v. e \<noteq> ContentUpdated v"
    and rest: "\<forall>e \<in> set es. e \<noteq> SaveEdit \<and> (\<forall>v. e \<noteq> ContentUpdated v)"
    by simp_all
  with Cons.prems(1) have "synced (step e st)" by (simp add: synced_step)
  then have "synced (run es (step e st))" using rest by (rule Cons.IH)
  then show ?case by simp
qed

lemma synced_mount: "synced (mount c)"
  by (simp add: synced_def mount_def)

lemma handleSave_effect:
  assumes "mode st = Editing"
  shows "content (step SaveEdit st) = content st"
    and "onSaveCalls (step SaveEdit st) = onSaveCalls st @ [editedContent st]"
    and "editedContent (step SaveEdit st) = editedContent st"
    and "mode (step SaveEdit st) = Viewing"
  using assms
  by (simp_all add: mode_def step_def handleSave_def onSave_def handleSaveResume_def
      showNotification_def split: if_splits)

lemma render_returns: "\<exists>r. render st = Inr r"
  using formatContent_returns [of "content st"] by (auto simp: render_def)

section \<open>The claims about the controller\<close>

text \<open>
  C2, amended: the draft is set from the content when the component is mounted and
  again by every cancel; neither the Edit button nor a replacement of the content
  touches the draft. A state is in step when the component is editing or its draft
  equals its content: the mounted state is, and so is the state after a cancel. From
  a state in step, after every sequence of open, begin edit, edit draft, cancel and
  close actions (no save and no replacement of the content among them), an edit
  session begun from the viewing state starts with the current content as its draft.
  The counterexample replaces the content while the preview is mounted: the edit
  session then starts with the older text.
\<close>

theorem draft_reset_on_mount_and_cancel:
  "editedContent (mount c) = c \<and> content (mount c) = c \<and> synced (mount c)
   \<and> editedContent (step BeginEdit st) = editedContent st
   \<and> editedContent (step (ContentUpdated v) st) = editedContent st
   \<and> content (step (ContentUpdated v) st) = v
   \<and> (mode st = Editing \<longrightarrow>
        editedContent (step CancelEdit st) = content st \<and> mode (step CancelEdit st) = Viewing
        \<and> synced (step CancelEdit st))
   \<and> (synced st \<and> (\<forall>e \<in> set es. e \<noteq> SaveEdit \<and> (\<forall>w. e \<noteq> ContentUpdated w))
        \<and> mode (run es st) = Viewing \<longrightarrow>
        mode (step BeginEdit (run es st)) = Editing
        \<and> editedContent (step BeginEdit (run es st)) = content (step BeginEdit (run es st))
        \<and> content (step BeginEdit (run es st)) = content st)"
proof -
  have m: "editedContent (mount c) = c" "content (mount c) = c" by (simp_all add: mount_def)
  have sm: "synced (mount c)" by (rule synced_mount)
  have b: "editedContent (step BeginEdit st) = editedContent st" by (simp add: step_def)
  have u: "editedContent (step (ContentUpdated v) st) = editedContent st"
    "content (step (ContentUpdated v) st) = v"
    by (simp_all add: step_def updateWorkflowData_def)
  have k: "mode st = Editing \<longrightarrow>
        editedContent (step CancelEdit st) = content st \<and> mode (step CancelEdit st) = Viewing
        \<and> synced (step CancelEdit st)"
    by (simp add: mode_def step_def handleCancel_def synced_def split: if_splits)
  have r: "synced st \<and> (\<forall>e \<in> set es. e \<noteq> SaveEdit \<and> (\<forall>w. e \<noteq> ContentUpdated w))
        \<and> mode (run es st) = Viewing \<longrightarrow>
        mode (step BeginEdit (run es st)) = Editing
        \<and> editedContent (step BeginEdit (run es st)) = content (step BeginEdit (run es st))
        \<and> content (step BeginEdit (run es st)) = content st"
  proof
    let ?st = "run es st"
    assume a: "synced st \<and> (\<forall>e \<in> set es. e \<noteq> SaveEdit \<and> (\<forall>w. e \<noteq> ContentUpdated w))
        \<and> mode ?st = Viewing"
    then have "synced ?st" by (simp add: synced_run)
    moreover from a have o: "isOpen ?st" "\<not> isEditing ?st"
      by (simp_all add: mode_def split: if_splits)
    ultimately have d: "editedContent ?st = content ?st" by (simp add: synced_def)
    from a have c: "content ?st = content st" by (simp add: content_run)
    from o d c show "mode (step BeginEdit ?st) = Editing
        \<and> editedContent (step BeginEdit ?st) = content (step BeginEdit ?st)
        \<and> content (step BeginEdit ?st) = content st"
      by (simp add: mode_def step_def)
  qed
  show ?thesis
    by (intro conjI) (fact m(1), fact m(2), fact sm, fact b, fact u(1), fact u(2), fact k, fact r)
qed

theorem draft_reset_on_mount_and_cancel_witness:
  "synced (mount (Str (js ''A'')))
   \<and> mode (run [Open, BeginEdit, EditDraft (js ''X''), CancelEdit] (mount (Str (js ''A'')))) = Viewing
   \<and> mode (step BeginEdit (run [Open, BeginEdit, EditDraft (js ''X''), CancelEdit]
        (mount (Str (js ''A''))))) = Editing
   \<and> editedContent (step BeginEdit (run [Open, BeginEdit, EditDraft (js ''X''), CancelEdit]
        (mount (Str (js ''A''))))) = Str (js ''A'')
   \<and> mode (run [ContentUpdated (Str (js ''B'')), Open, BeginEdit] (mount (Str (js ''A''))))
       = Editing
   \<and> editedContent (step CancelEdit (run [ContentUpdated (Str (js ''B'')), Open, BeginEdit]
        (mount (Str (js ''A''))))) = Str (js ''B'')"
proof -
  let ?es = "[Open, BeginEdit, EditDraft (js ''X''), CancelEdit]"
  let ?st = "run [ContentUpdated (Str (js ''B'')), Open, BeginEdit] (mount (Str (js ''A'')))"
  have s: "synced (mount (Str (js ''A'')))" by (simp add: synced_def mount_def)
  have q: "\<forall>e \<in> set ?es. e \<noteq> SaveEdit \<and> (\<forall>w. e \<noteq> ContentUpdated w)" by simp
  have h: "mode (run ?es (mount (Str (js ''A'')))) = Viewing"
    by (simp add: mode_def step_def mount_def handleCancel_def)
  have e: "mode ?st = Editing" "content ?st = Str (js ''B'')"
    by (simp_all add: mode_def step_def mount_def updateWorkflowData_def)
  have c: "content (mount (Str (js ''A''))) = Str (js ''A'')" by (simp add: mount_def)
  from s q h draft_reset_on_mount_and_cancel [of "Str (js ''A'')" "mount (Str (js ''A''))" Null ?es]
  have 1: "mode (step BeginEdit (run ?es (mount (Str (js ''A''))))) = Editing
    \<and> editedContent (step BeginEdit (run ?es (mount (Str (js ''A'')))))
        = content (step BeginEdit (run ?es (mount (Str (js ''A'')))))
    \<and> content (step BeginEdit (run ?es (mount (Str (js ''A'')))))
        = content (mount (Str (js ''A'')))"
    by blast
  from e(1) draft_reset_on_mount_and_cancel [of "Str (js ''A'')" ?st Null ?es]
  have 2: "editedContent (step CancelEdit ?st) = content ?st" by blast
  from s q h e 1 2 c show ?thesis by simp
qed

theorem content_update_counterexample:
  "mode (run [ContentUpdated (Str (js ''B'')), Open] (mount (Str (js ''A'')))) = Viewing
   \<and> mode (run [ContentUpdated (Str (js ''B'')), Open, BeginEdit] (mount (Str (js ''A''))))
       = Editing
   \<and> content (run [ContentUpdated (Str (js ''B'')), Open, BeginEdit] (mount (Str (js ''A''))))
       = Str (js ''B'')
   \<and> editedContent (run [ContentUpdated (Str (js ''B'')), Open, BeginEdit]
        (mount (Str (js ''A'')))) = Str (js ''A'')
   \<and> js ''A'' \<noteq> js ''B''"
  by (simp add: mode_def step_def mount_def updateWorkflowData_def js_def)

text \<open>
  C3: saving the draft \<open>B\<close> of the content \<open>A\<close>. The Save button calls \<open>onSave\<close>
  exactly once, with \<open>B\<close>, and the component returns to viewing; but
  \<open>handleSaveResume\<close> only shows a notification, so the content is still \<open>A\<close> and the
  view shows the blocks of \<open>A\<close>, not those of the saved text.
\<close>

theorem save_does_not_commit:
  "mode (run [Open, BeginEdit, EditDraft (js ''B'')] (mount (Str (js ''A'')))) = Editing
   \<and> editedContent (run [Open, BeginEdit, EditDraft (js ''B'')] (mount (Str (js ''A''))))
       = Str (js ''B'')
   \<and> onSaveCalls (run [Open, BeginEdit, EditDraft (js ''B'')] (mount (Str (js ''A'')))) = []
   \<and> onSaveCalls (run [Open, BeginEdit, EditDraft (js ''B''), SaveEdit] (mount (Str (js ''A''))))
       = [Str (js ''B'')]
   \<and> mode (run [Open, BeginEdit, EditDraft (js ''B''), SaveEdit] (mount (Str (js ''A''))))
       = Viewing
   \<and> content (run [Open, BeginEdit, EditDraft (js ''B''), SaveEdit] (mount (Str (js ''A''))))
       = Str (js ''A'')
   \<and> render (run [Open, BeginEdit, EditDraft (js ''B''), SaveEdit] (mount (Str (js ''A''))))
       = Inr (Some \<lparr>body = Formatted [classify_line 0 (js ''A'')], charCount = 1\<rparr>)
   \<and> classify_line 0 (js ''A'') \<noteq> classify_line 0 (js ''B'')"
proof -
  have c: "classify_line 0 (js ''A'') \<noteq> classify_line 0 (js ''B'')" by code_simp
  have f: "formatContent (Str (js ''A'')) = Inr [classify_line 0 (js ''A'')]"
    by (simp add: formatContent_Str js_def char_nl_def enumerate_eq_zip)
  show ?thesis using c f
    by (simp add: mode_def step_def mount_def handleSave_def onSave_def handleSaveResume_def
        showNotification_def render_def content_length_def)
      (simp add: js_def)
qed

text \<open>
  C4, amended: rendering never fails and shows nothing exactly when the preview is
  closed; the character count of an open preview is the length of the content (0 for
  absent content), also while editing. It is the length of the text on screen in the
  viewing state; in the editing state the text area shows the draft and the count
  agrees with the draft's length only when draft and content have the same length.
  The counterexample is a draft of two code units over a content of one.
\<close>

theorem char_count_is_content_length:
  "(\<exists>r. render st = Inr r)
   \<and> (mode st = Closed \<longleftrightarrow> render st = Inr None)
   \<and> (render st = Inr (Some v) \<longrightarrow> charCount v = content_length (content st))
   \<and> (render st = Inr (Some v) \<and> mode st = Viewing \<longrightarrow>
        charCount v = content_length (shownText st))
   \<and> (render st = Inr (Some v) \<and> mode st = Editing \<longrightarrow>
        body v = Textarea (editedContent st)
        \<and> (charCount v = content_length (shownText st) \<longleftrightarrow>
             content_length (editedContent st) = content_length (content st)))"
proof -
  obtain blocks where f: "formatContent (content st) = Inr blocks"
    using formatContent_returns by blast
  have 1: "\<exists>r. render st = Inr r" by (rule render_returns)
  have 2: "mode st = Closed \<longleftrightarrow> render st = Inr None"
    by (simp add: mode_def render_def f)
  have 3: "render st = Inr (Some v) \<longrightarrow> charCount v = content_length (content st)"
    by (auto simp: render_def f split: if_splits)
  have 4: "render st = Inr (Some v) \<and> mode st = Viewing \<longrightarrow>
        charCount v = content_length (shownText st)"
    using 3 by (auto simp: mode_def shownText_def split: if_splits)
  have 5: "render st = Inr (Some v) \<and> mode st = Editing \<longrightarrow>
        body v = Textarea (editedContent st)
        \<and> (charCount v = content_length (shownText st) \<longleftrightarrow>
             content_length (editedContent st) = content_length (content st))"
    by (auto simp: render_def mode_def shownText_def f split: if_splits)
  show ?thesis by (intro conjI) (fact 1, fact 2, fact 3, fact 4, fact 5)
qed

theorem char_count_is_content_length_witness:
  "render (run [Open] (mount (Str (js ''AB''))))
     = Inr (Some \<lparr>body = Formatted [classify_line 0 (js ''AB'')], charCount = 2\<rparr>)
   \<and> mode (run [Open] (mount (Str (js ''AB'')))) = Viewing
   \<and> charCount \<lparr>body = Formatted [classify_line 0 (js ''AB'')], charCount = 2\<rparr>
       = content_length (shownText (run [Open] (mount (Str (js ''AB'')))))
   \<and> content_length (content (run [Open] (mount (Str (js ''AB''))))) = 2
   \<and> render (run [Open, BeginEdit, EditDraft (js ''xy'')] (mount (Str (js ''AB''))))
     = Inr (Some \<lparr>body = Textarea (Str (js ''xy'')), charCount = 2\<rparr>)
   \<and> mode (run [Open, BeginEdit, EditDraft (js ''xy'')] (mount (Str (js ''AB'')))) = Editing
   \<and> charCount \<lparr>body = Textarea (Str (js ''xy'')), charCount = 2\<rparr>
       = content_length (shownText (run [Open, BeginEdit, EditDraft (js ''xy'')]
           (mount (Str (js ''AB'')))))"
proof -
  have f: "formatContent (Str (js ''AB'')) = Inr [classify_line 0 (js ''AB'')]"
    by (simp add: formatContent_Str js_def char_nl_def enumerate_eq_zip)
  have h: "render (run [Open] (mount (Str (js ''AB''))))
     = Inr (Some \<lparr>body = Formatted [classify_line 0 (js ''AB'')], charCount = 2\<rparr>)
   \<and> mode (run [Open] (mount (Str (js ''AB'')))) = Viewing"
    using f by (simp add: render_def step_def mount_def mode_def content_length_def)
      (simp add: js_def)
  have g: "render (run [Open, BeginEdit, EditDraft (js ''xy'')] (mount (Str (js ''AB''))))
     = Inr (Some \<lparr>body = Textarea (Str (js ''xy'')), charCount = 2\<rparr>)
   \<and> mode (run [Open, BeginEdit, EditDraft (js ''xy'')] (mount (Str (js ''AB'')))) = Editing"
    by (simp add: render_def step_def mount_def mode_def content_length_def js_def)
  have l: "content_length (editedContent (run [Open, BeginEdit, EditDraft (js ''xy'')]
      (mount (Str (js ''AB''))))) = content_length (content (run [Open, BeginEdit,
      EditDraft (js ''xy'')] (mount (Str (js ''AB'')))))"
    by (simp add: step_def mount_def content_length_def js_def)
  from h char_count_is_content_length [of "run [Open] (mount (Str (js ''AB'')))"
      "\<lparr>body = Formatted [classify_line 0 (js ''AB'')], charCount = 2\<rparr>"]
  have 1: "charCount \<lparr>body = Formatted [classify_line 0 (js ''AB'')], charCount = 2\<rparr>
       = content_length (shownText (run [Open] (mount (Str (js ''AB'')))))
   \<and> content_length (content (run [Open] (mount (Str (js ''AB''))))) = 2"
    by simp
  from g l char_count_is_content_length
      [of "run [Open, BeginEdit, EditDraft (js ''xy'')] (mount (Str (js ''AB'')))"
      "\<lparr>body = Textarea (Str (js ''xy'')), charCount = 2\<rparr>"]
  have 2: "charCount \<lparr>body = Textarea (Str (js ''xy'')), charCount = 2\<rparr>
       = content_length (shownText (run [Open, BeginEdit, EditDraft (js ''xy'')]
           (mount (Str (js ''AB'')))))"
    by blast
  from h g 1 2 show ?thesis by blast
qed

theorem char_count_counterexample:
  "mode (run [Open, BeginEdit, EditDraft (js ''XY'')] (mount (Str (js ''A'')))) = Editing
   \<and> shownText (run [Open, BeginEdit, EditDraft (js ''XY'')] (mount (Str (js ''A''))))
       = Str (js ''XY'')
   \<and> render (run [Open, BeginEdit, EditDraft (js ''XY'')] (mount (Str (js ''A''))))
       = Inr (Some \<lparr>body = Textarea (Str (js ''XY'')), charCount = 1\<rparr>)
   \<and> content_length (Str (js ''XY'')) = 2"
  by (simp add: mode_def step_def mount_def render_def shownText_def content_length_def js_def)

text \<open>
  C5, amended: closing while editing only hides the preview. The content is
  unchanged, but the editing flag and the draft are kept, so that the next open gives
  back the very state before the close: editing, with the prior draft. Of all the
  events on the mounted preview, only typing and the Cancel button change the draft.
  The counterexample compares closing with cancelling before closing.
\<close>

theorem close_keeps_edit_session:
  "(mode st = Editing \<longrightarrow>
     step Close st = st\<lparr>isOpen := False\<rparr>
     \<and> mode (step Close st) = Closed
     \<and> content (step Close st) = content st
     \<and> isEditing (step Close st) \<and> editedContent (step Close st) = editedContent st
     \<and> step Open (step Close st) = st
     \<and> mode (step Open (step Close st)) = Editing
     \<and> editedContent (step Open (step Close st)) = editedContent st)
   \<and> (editedContent (step e st) \<noteq> editedContent st \<longrightarrow>
        e = CancelEdit \<or> (\<exists>v. e = EditDraft v))"
proof -
  have c: "mode st = Editing \<longrightarrow>
     step Close st = st\<lparr>isOpen := False\<rparr>
     \<and> mode (step Close st) = Closed
     \<and> content (step Close st) = content st
     \<and> isEditing (step Close st) \<and> editedContent (step Close st) = editedContent st
     \<and> step Open (step Close st) = st
     \<and> mode (step Open (step Close st)) = Editing
     \<and> editedContent (step Open (step Close st)) = editedContent st"
    by (simp add: mode_def step_def onClose_def split: if_splits)
  have d: "editedContent (step e st) \<noteq> editedContent st \<longrightarrow>
        e = CancelEdit \<or> (\<exists>v. e = EditDraft v)"
    using editedContent_step [of e st] by blast
  from c d show ?thesis by (rule conjI)
qed

theorem close_keeps_edit_session_witness:
  "mode (run [Open, BeginEdit, EditDraft (js ''X'')] (mount (Str (js ''A'')))) = Editing
   \<and> mode (step Close (run [Open, BeginEdit, EditDraft (js ''X'')] (mount (Str (js ''A'')))))
       = Closed
   \<and> mode (step Open (step Close (run [Open, BeginEdit, EditDraft (js ''X'')]
        (mount (Str (js ''A'')))))) = Editing
   \<and> editedContent (step Open (step Close (run [Open, BeginEdit, EditDraft (js ''X'')]
        (mount (Str (js ''A'')))))) = Str (js ''X'')
   \<and> editedContent (step CancelEdit (run [Open, BeginEdit, EditDraft (js ''X'')]
        (mount (Str (js ''A''))))) \<noteq>
      editedContent (run [Open, BeginEdit, EditDraft (js ''X'')] (mount (Str (js ''A''))))
   \<and> (CancelEdit = CancelEdit \<or> (\<exists>v. CancelEdit = EditDraft v))"
proof -
  let ?st = "run [Open, BeginEdit, EditDraft (js ''X'')] (mount (Str (js ''A'')))"
  have h: "mode ?st = Editing" "editedContent ?st = Str (js ''X'')"
    by (simp_all add: mode_def step_def mount_def)
  have n: "editedContent (step CancelEdit ?st) \<noteq> editedContent ?st"
    by (simp add: step_def mount_def handleCancel_def js_def)
  from h(1) close_keeps_edit_session [of ?st CancelEdit]
  have 1: "mode (step Close ?st) = Closed \<and> mode (step Open (step Close ?st)) = Editing
    \<and> editedContent (step Open (step Close ?st)) = editedContent ?st"
    by blast
  from n close_keeps_edit_session [of ?st CancelEdit]
  have 2: "CancelEdit = CancelEdit \<or> (\<exists>v. CancelEdit = EditDraft v)" by blast
  from h n 1 2 show ?thesis by simp
qed

theorem close_while_editing_counterexample:
  "mode (run [Open, BeginEdit, EditDraft (js ''X'')] (mount (Str (js ''A'')))) = Editing
   \<and> mode (run [Open, BeginEdit, EditDraft (js ''X''), Close, Open] (mount (Str (js ''A''))))
       = Editing
   \<and> editedContent (run [Open, BeginEdit, EditDraft (js ''X''), Close, Open]
        (mount (Str (js ''A'')))) = Str (js ''X'')
   \<and> mode (run [Open, BeginEdit, EditDraft (js ''X''), CancelEdit, Close, Open]
        (mount (Str (js ''A'')))) = Viewing
   \<and> editedContent (run [Open, BeginEdit, EditDraft (js ''X''), CancelEdit, Close, Open]
        (mount (Str (js ''A'')))) = Str (js ''A'')
   \<and> js ''X'' \<noteq> js ''A''"
  by (simp add: mode_def step_def mount_def handleCancel_def onClose_def js_def)

end
